theory Spec2Isabelle
  imports Complex_Main
begin

section \<open>The adjacency-matrix vessel of plumed (\<^verbatim>\<open>src/adjmat/AdjacencyMatrixVessel.cpp\<close>)\<close>

text \<open>
  The vessel stores, for every pair of nodes of a contact matrix, a weight and a weighted
  value in a compact linear store, and rebuilds from it a dense matrix, adjacency lists
  and an edge list.

  Conventions of the embedding.
  \<^item> \<^verbatim>\<open>unsigned\<close> quantities (dimensions, node indices, task and storage indices, counts)
    are natural numbers, and \<^verbatim>\<open>unsigned\<close> has 32 bits: every product, sum and difference of
    the index arithmetic is taken modulo \<open>2\<^sup>3\<^sup>2\<close> (\<open>unsigned_mul\<close>, \<open>unsigned_add\<close>,
    \<open>unsigned_pred\<close>). The counters of the views (\<^verbatim>\<open>nneigh[k]++\<close>, \<^verbatim>\<open>nedge++\<close>) count entries
    of vectors held in memory and are plain successors.
  \<^item> \<^verbatim>\<open>double\<close> values are real numbers with exact arithmetic. The conversion of a
    non-negative \<^verbatim>\<open>double\<close> to \<^verbatim>\<open>unsigned\<close> truncates, and keeps the integer part modulo
    \<open>2\<^sup>3\<^sup>2\<close> (\<open>to_unsigned\<close>): beyond the range of \<^verbatim>\<open>unsigned\<close> the language leaves the
    conversion undefined, and this is the value compiled code is seen to return. A
    quotient by a zero weight (an infinity or a NaN in the source) is outside the model:
    statements about quotients assume a non-zero weight.
  \<^item> Classes declared outside the translated file (\<^verbatim>\<open>AdjacencyMatrixBase\<close>,
    \<^verbatim>\<open>StoreDataVessel\<close>, \<^verbatim>\<open>Matrix\<close>, \<^verbatim>\<open>DynamicList\<close>, \<^verbatim>\<open>MultiValue\<close>) appear through the
    members the vessel calls, as fields of records or as parameters.
\<close>

subsection \<open>Machine arithmetic\<close>

definition UINT_MAX :: nat where
  "UINT_MAX = 4294967295"

text \<open>What a 32-bit \<^verbatim>\<open>unsigned\<close> keeps of a natural number.\<close>

definition unsigned_wrap :: "nat \<Rightarrow> nat" where
  "unsigned_wrap x = x mod 2 ^ 32"

definition unsigned_mul :: "nat \<Rightarrow> nat \<Rightarrow> nat" where
  "unsigned_mul a b = unsigned_wrap (a * b)"

definition unsigned_add :: "nat \<Rightarrow> nat \<Rightarrow> nat" where
  "unsigned_add a b = unsigned_wrap (a + b)"

text \<open>\<^verbatim>\<open>x-1\<close> on an \<^verbatim>\<open>unsigned\<close>: at zero the subtraction wraps to the largest value.\<close>

definition unsigned_pred :: "nat \<Rightarrow> nat" where
  "unsigned_pred x = (if x = 0 then UINT_MAX else x - 1)"

text \<open>
  The implicit conversion of a non-negative \<^verbatim>\<open>double\<close> to \<^verbatim>\<open>unsigned\<close>: the integer part,
  modulo \<open>2\<^sup>3\<^sup>2\<close>.
\<close>

definition to_unsigned :: "real \<Rightarrow> nat" where
  "to_unsigned x = unsigned_wrap (nat \<lfloor>x\<rfloor>)"

subsection \<open>Errors\<close>

datatype error =
    ConfigError string          \<comment> \<open>\<^verbatim>\<open>error(msg)\<close> of the constructor\<close>
  | AssertionFailed             \<comment> \<open>\<^verbatim>\<open>plumed_assert\<close>\<close>
  | PreconditionViolation       \<comment> \<open>\<^verbatim>\<open>plumed_dbg_assert\<close>\<close>
  | OutOfBounds                 \<comment> \<open>an unchecked \<^verbatim>\<open>std::vector\<close> access outside the vector\<close>

subsection \<open>Collaborators\<close>

text \<open>
  The matrix action behind the pointer \<^verbatim>\<open>function\<close>, a parameter of the vessel (the class
  \<^verbatim>\<open>AdjacencyMatrixBase\<close> is declared outside the translated file): its node count, the
  capability flag of the weight, and the task decoder. \<open>taskIndices\<close> is the composition
  \<^verbatim>\<open>decodeIndexToAtoms(getTaskCode(code), myatoms)\<close> followed by reading \<^verbatim>\<open>myatoms[0]\<close> and
  \<^verbatim>\<open>myatoms[1]\<close>.
\<close>

record AdjacencyMatrixBase =
  getNumberOfNodes :: nat
  weightHasDerivatives :: bool
  taskIndices :: "nat \<Rightarrow> nat \<times> nat"

text \<open>
  Modelled from the spec: the class \<^verbatim>\<open>MultiValue\<close> is declared outside the translated file.
  The spec has the derivatives of the two scalars keyed by a shared sparse index space:
  a \<^verbatim>\<open>MultiValue\<close> is the list of the active derivative indices and, for every component
  and every derivative index, the stored derivative, which \<^verbatim>\<open>getDerivative\<close> reads and
  \<^verbatim>\<open>setDerivative\<close> overwrites.
\<close>

record MultiValue =
  active_indices :: "nat list"
  derivatives :: "nat \<Rightarrow> nat \<Rightarrow> real"

definition getNumberActive :: "MultiValue \<Rightarrow> nat" where
  "getNumberActive myvals = length (active_indices myvals)"

definition getActiveIndex :: "MultiValue \<Rightarrow> nat \<Rightarrow> nat" where
  "getActiveIndex myvals i = active_indices myvals ! i"

definition getDerivative :: "MultiValue \<Rightarrow> nat \<Rightarrow> nat \<Rightarrow> real" where
  "getDerivative myvals ival jder = derivatives myvals ival jder"

definition setDerivative :: "MultiValue \<Rightarrow> nat \<Rightarrow> nat \<Rightarrow> real \<Rightarrow> MultiValue" where
  "setDerivative myvals ival jder der =
     myvals \<lparr> derivatives := (derivatives myvals) (ival := (derivatives myvals ival) (jder := der)) \<rparr>"

text \<open>
  The base class of the vessel, a parameter as well: which stored values are active, the pair
  \<^verbatim>\<open>(vals[0], vals[1])\<close> that \<^verbatim>\<open>retrieveValue(i, normed, vals)\<close> fills in (the accumulated
  weight and the accumulated weighted value), and the base-class method
  \<^verbatim>\<open>StoreDataVessel::retrieveDerivatives(myelem, normed, myvals)\<close>, which loads the stored
  derivatives of both components into \<^verbatim>\<open>myvals\<close>.
\<close>

record StoreDataVessel =
  storedValueIsActive :: "nat \<Rightarrow> bool"
  retrieveValue :: "nat \<Rightarrow> bool \<Rightarrow> real \<times> real"
  base_retrieveDerivatives :: "nat \<Rightarrow> bool \<Rightarrow> MultiValue \<Rightarrow> MultiValue"

text \<open>
  Modelled from the spec: the class \<^verbatim>\<open>Matrix<T>\<close> is declared outside the translated file.
  It is a two-dimensional table of cells addressed by (row, column); its extent is the
  caller's business and is not tracked. \<open>Matrix_set m i j x\<close> is the assignment
  \<^verbatim>\<open>m(i,j) = x\<close>.
\<close>

type_synonym 'a Matrix = "nat \<Rightarrow> nat \<Rightarrow> 'a"

definition Matrix_set :: "'a Matrix \<Rightarrow> nat \<Rightarrow> nat \<Rightarrow> 'a \<Rightarrow> 'a Matrix" where
  "Matrix_set m i j x = m (i := (m i) (j := x))"

text \<open>
  Modelled from the spec: \<^verbatim>\<open>DynamicList\<close> is declared outside the translated file. The
  spec describes the list handed to the dense view as the list of active cells, rebuilt
  fully on each call; it is the list of the activated indices, in the order of activation.
\<close>

type_synonym DynamicList = "nat list"

definition deactivateAll :: "DynamicList \<Rightarrow> DynamicList" where
  "deactivateAll l = []"

definition activate :: "DynamicList \<Rightarrow> nat \<Rightarrow> DynamicList" where
  "activate l i = l @ [i]"

definition updateActiveMembers :: "DynamicList \<Rightarrow> DynamicList" where
  "updateActiveMembers l = l"

text \<open>
  Modelled from the spec: the macro \<^verbatim>\<open>plumed_dbg_assert\<close> is defined outside the translated
  file. The spec makes a violated precondition of a view fatal and reported at call time:
  the macro stops the call with an error when its test is false.
\<close>

definition plumed_dbg_assert :: "bool \<Rightarrow> error + unit" where
  "plumed_dbg_assert test = (if test then Inr () else Inl PreconditionViolation)"

subsection \<open>Loops\<close>

text \<open>
  \<^verbatim>\<open>for(unsigned i=i0; i<n; ++i) body\<close>. The bounds of the source's loops
  (\<^verbatim>\<open>getNumberOfStoredValues()\<close>, \<^verbatim>\<open>nneigh.size()\<close>, \<^verbatim>\<open>myvals.getNumberActive()\<close>) are not
  changed by the loop bodies, so they are evaluated once. The second form is for bodies
  that can stop the call with an error.
\<close>

function for_loop :: "nat \<Rightarrow> nat \<Rightarrow> (nat \<Rightarrow> 's \<Rightarrow> 's) \<Rightarrow> 's \<Rightarrow> 's" where
  "for_loop i n body s = (if i < n then for_loop (Suc i) n body (body i s) else s)"
  by pat_completeness auto
termination
  by (relation "measure (\<lambda>(i, n, body, s). n - i)") auto

declare for_loop.simps [simp del]

function for_loop_err ::
  "nat \<Rightarrow> nat \<Rightarrow> (nat \<Rightarrow> 's \<Rightarrow> error + 's) \<Rightarrow> 's \<Rightarrow> error + 's" where
  "for_loop_err i n body s =
     (if i < n
      then (case body i s of Inl e \<Rightarrow> Inl e | Inr s' \<Rightarrow> for_loop_err (Suc i) n body s')
      else Inr s)"
  by pat_completeness auto
termination
  by (relation "measure (\<lambda>(i, n, body, s). n - i)") auto

declare for_loop_err.simps [simp del]

subsection \<open>The vessel\<close>

record AdjacencyMatrixVessel =
  func :: AdjacencyMatrixBase      \<comment> \<open>the member \<^verbatim>\<open>function\<close>\<close>
  store :: StoreDataVessel         \<comment> \<open>the base-class part\<close>
  nrows :: nat
  ncols :: nat
  symmetric :: bool
  hbonds :: bool

text \<open>
  The constructor. \<open>action\<close> is the result of the \<^verbatim>\<open>dynamic_cast\<close> of \<^verbatim>\<open>getAction()\<close>,
  \<open>None\<close> for a null pointer; the four keywords are the parsed \<^verbatim>\<open>NROWS\<close>, \<^verbatim>\<open>NCOLS\<close>,
  \<^verbatim>\<open>SYMMETRIC\<close> and \<^verbatim>\<open>HBONDS\<close>.
\<close>

definition AdjacencyMatrixVessel_new ::
  "AdjacencyMatrixBase option \<Rightarrow> StoreDataVessel \<Rightarrow> nat \<Rightarrow> nat \<Rightarrow> bool \<Rightarrow> bool
     \<Rightarrow> error + AdjacencyMatrixVessel" where
  "AdjacencyMatrixVessel_new action da NROWS NCOLS SYMMETRIC HBONDS =
     (case action of
        None \<Rightarrow> Inl AssertionFailed
      | Some f \<Rightarrow>
          if SYMMETRIC \<and> HBONDS
            then Inl (ConfigError ''matrix should be either symmetric or hbonds'')
          else if SYMMETRIC \<and> NROWS \<noteq> NCOLS
            then Inl (ConfigError ''matrix is supposed to be symmetric but nrows!=ncols'')
          else if HBONDS \<and> NROWS \<noteq> NCOLS
            then Inl (ConfigError ''matrix is supposed to be hbonds but nrows!=ncols'')
          else Inr \<lparr> func = f, store = da, nrows = NROWS, ncols = NCOLS,
                     symmetric = SYMMETRIC, hbonds = HBONDS \<rparr>)"

definition isSymmetric :: "AdjacencyMatrixVessel \<Rightarrow> bool" where
  "isSymmetric v = symmetric v"

definition undirectedGraph :: "AdjacencyMatrixVessel \<Rightarrow> bool" where
  "undirectedGraph v = (symmetric v \<or> hbonds v)"

definition getNumberOfStoredValues :: "AdjacencyMatrixVessel \<Rightarrow> nat" where
  "getNumberOfStoredValues v =
     (if symmetric v
      then (let nnodes = getNumberOfNodes (func v)
            in to_unsigned (0.5 * real nnodes * real (unsigned_pred nnodes)))
      else unsigned_mul (nrows v) (ncols v))"

definition getStoreIndexFromMatrixIndices :: "AdjacencyMatrixVessel \<Rightarrow> nat \<Rightarrow> nat \<Rightarrow> nat" where
  "getStoreIndexFromMatrixIndices v ielem jelem =
     (if \<not> symmetric v then unsigned_add (unsigned_mul (nrows v) ielem) jelem
      else if ielem > jelem
        then to_unsigned (0.5 * real ielem * real (unsigned_pred ielem) + real jelem)
      else to_unsigned (0.5 * real jelem * real (unsigned_pred jelem) + real ielem))"

definition getMatrixIndices :: "AdjacencyMatrixVessel \<Rightarrow> nat \<Rightarrow> nat \<times> nat" where
  "getMatrixIndices v code = taskIndices (func v) code"

text \<open>
  The body of \<^verbatim>\<open>getStoreIndex\<close> is a sequence of three statements, each of which may
  return; the function returns what the first returning statement returns.
\<close>

datatype 'a stmt = Return 'a | Fallthrough

fun run_stmts :: "'a stmt list \<Rightarrow> 'a option" where
  "run_stmts [] = None"
| "run_stmts (Return x # rest) = Some x"
| "run_stmts (Fallthrough # rest) = run_stmts rest"

definition getStoreIndex_body :: "AdjacencyMatrixVessel \<Rightarrow> nat \<Rightarrow> nat stmt list" where
  "getStoreIndex_body v myelem =
     (let (ielem, jelem) = getMatrixIndices v myelem
      in [ Return (getStoreIndexFromMatrixIndices v ielem jelem),
           if symmetric v
             then Return (to_unsigned (0.5 * real ielem * real (unsigned_pred ielem) + real jelem))
             else Fallthrough,
           Return (unsigned_add (unsigned_mul (nrows v) ielem) jelem) ])"

definition getStoreIndex :: "AdjacencyMatrixVessel \<Rightarrow> nat \<Rightarrow> nat option" where
  "getStoreIndex v myelem = run_stmts (getStoreIndex_body v myelem)"

subsection \<open>The views\<close>

text \<open>The dense matrix. The matrix is the caller's: the view assigns cells of it.\<close>

definition retrieveMatrix_step ::
  "AdjacencyMatrixVessel \<Rightarrow> nat \<Rightarrow> DynamicList \<times> real Matrix \<Rightarrow> DynamicList \<times> real Matrix" where
  "retrieveMatrix_step v i = (\<lambda>(myactive_elements, mymatrix).
     if \<not> storedValueIsActive (store v) i then (myactive_elements, mymatrix)
     else (let myactive_elements = activate myactive_elements i;
               (k, j) = getMatrixIndices v i;
               vals = retrieveValue (store v) i False
           in if symmetric v
              then (myactive_elements,
                    Matrix_set (Matrix_set mymatrix j k (snd vals / fst vals)) k j (snd vals / fst vals))
              else (myactive_elements, Matrix_set mymatrix k j (snd vals / fst vals))))"

definition retrieveMatrix ::
  "AdjacencyMatrixVessel \<Rightarrow> DynamicList \<Rightarrow> real Matrix \<Rightarrow> DynamicList \<times> real Matrix" where
  "retrieveMatrix v myactive_elements mymatrix =
     (let (myactive_elements, mymatrix) =
            for_loop 0 (getNumberOfStoredValues v) (retrieveMatrix_step v)
              (deactivateAll myactive_elements, mymatrix)
      in (updateActiveMembers myactive_elements, mymatrix))"

text \<open>
  The adjacency lists. \<^verbatim>\<open>nneigh\<close> is a \<^verbatim>\<open>std::vector\<close>, read and written without a check:
  an access outside it is undefined in the source, and stops the model with
  \<open>OutOfBounds\<close>.
\<close>

definition retrieveAdjacencyLists_step ::
  "AdjacencyMatrixVessel \<Rightarrow> nat \<Rightarrow> nat list \<times> nat Matrix \<Rightarrow> error + nat list \<times> nat Matrix" where
  "retrieveAdjacencyLists_step v i = (\<lambda>(nneigh, adj_list).
     if \<not> storedValueIsActive (store v) i then Inr (nneigh, adj_list)
     else (let (k, j) = getMatrixIndices v i
           in if \<not> k < length nneigh then Inl OutOfBounds
              else (let adj_list = Matrix_set adj_list k (nneigh ! k) j;
                        nneigh = nneigh [k := nneigh ! k + 1]
                    in if \<not> j < length nneigh then Inl OutOfBounds
                       else (let adj_list = Matrix_set adj_list j (nneigh ! j) k;
                                 nneigh = nneigh [j := nneigh ! j + 1]
                             in Inr (nneigh, adj_list)))))"

definition retrieveAdjacencyLists ::
  "AdjacencyMatrixVessel \<Rightarrow> nat list \<Rightarrow> nat Matrix \<Rightarrow> error + nat list \<times> nat Matrix" where
  "retrieveAdjacencyLists v nneigh adj_list =
     (case plumed_dbg_assert (undirectedGraph v) of
        Inl e \<Rightarrow> Inl e
      | Inr _ \<Rightarrow>
          (let nneigh = for_loop 0 (length nneigh) (\<lambda>i nneigh. nneigh [i := 0]) nneigh
           in for_loop_err 0 (getNumberOfStoredValues v) (retrieveAdjacencyLists_step v)
                (nneigh, adj_list)))"

text \<open>The edge list; \<^verbatim>\<open>edge_list\<close> is a \<^verbatim>\<open>std::vector\<close> of pairs, sized by the caller.\<close>

definition retrieveEdgeList_step ::
  "AdjacencyMatrixVessel \<Rightarrow> nat \<Rightarrow> nat \<times> (nat \<times> nat) list \<Rightarrow> error + nat \<times> (nat \<times> nat) list" where
  "retrieveEdgeList_step v i = (\<lambda>(nedge, edge_list).
     if \<not> storedValueIsActive (store v) i then Inr (nedge, edge_list)
     else if \<not> nedge < length edge_list then Inl OutOfBounds
     else Inr (nedge + 1, edge_list [nedge := getMatrixIndices v i]))"

definition retrieveEdgeList ::
  "AdjacencyMatrixVessel \<Rightarrow> nat \<Rightarrow> (nat \<times> nat) list \<Rightarrow> error + nat \<times> (nat \<times> nat) list" where
  "retrieveEdgeList v nedge edge_list =
     (case plumed_dbg_assert (undirectedGraph v) of
        Inl e \<Rightarrow> Inl e
      | Inr _ \<Rightarrow>
          for_loop_err 0 (getNumberOfStoredValues v) (retrieveEdgeList_step v) (0, edge_list))"

subsection \<open>The derivatives of the normalised value\<close>

definition retrieveDerivatives_step :: "real \<times> real \<Rightarrow> real \<Rightarrow> nat \<Rightarrow> MultiValue \<Rightarrow> MultiValue" where
  "retrieveDerivatives_step vals pref i myvals =
     (let jder = getActiveIndex myvals i
      in setDerivative myvals 1 jder
           (getDerivative myvals 1 jder / fst vals - pref * getDerivative myvals 0 jder))"

definition retrieveDerivatives ::
  "AdjacencyMatrixVessel \<Rightarrow> nat \<Rightarrow> bool \<Rightarrow> MultiValue \<Rightarrow> MultiValue" where
  "retrieveDerivatives v myelem normed myvals =
     (let myvals = base_retrieveDerivatives (store v) myelem normed myvals
      in if \<not> weightHasDerivatives (func v) then myvals
         else (let vals = retrieveValue (store v) myelem normed;
                   pref = snd vals / (fst vals * fst vals)
               in for_loop 0 (getNumberActive myvals) (retrieveDerivatives_step vals pref) myvals))"

subsection \<open>What the views are compared with\<close>



subsection \<open>Triangular numbers\<close>

definition triangular :: "nat \<Rightarrow> nat" where
  "triangular k = k * (k - 1) div 2"

subsection \<open>Concrete vessels\<close>

text \<open>
  A matrix action on four nodes whose decoder sends task \<open>t\<close> to the pair of nodes stored
  at index \<open>t\<close> of the triangular store, the smaller node first.
\<close>

definition example_decoder :: "nat \<Rightarrow> nat \<times> nat" where
  "example_decoder code =
     (if code = 0 then (0, 1) else if code = 1 then (0, 2) else if code = 2 then (1, 2)
      else if code = 3 then (0, 3) else if code = 4 then (1, 3) else (2, 3))"

definition example_action :: AdjacencyMatrixBase where
  "example_action =
     \<lparr> getNumberOfNodes = 4, weightHasDerivatives = True, taskIndices = example_decoder \<rparr>"

text \<open>
  A store with two active slots: slot 0, the pair (0,1), holds weight 2 and weighted value
  1 (normalised value 0.5); slot 5, the pair (2,3), holds weight 5 and weighted value 4
  (normalised value 0.8).
\<close>

definition example_store :: StoreDataVessel where
  "example_store =
     \<lparr> storedValueIsActive = (\<lambda>i. i = 0 \<or> i = 5),
       retrieveValue = (\<lambda>i normed. if i = 0 then (2, 1) else if i = 5 then (5, 4) else (0, 0)),
       base_retrieveDerivatives = (\<lambda>myelem normed myvals. myvals) \<rparr>"

definition example_symmetric :: AdjacencyMatrixVessel where
  "example_symmetric =
     \<lparr> func = example_action, store = example_store, nrows = 4, ncols = 4,
       symmetric = True, hbonds = False \<rparr>"

definition example_directed :: AdjacencyMatrixVessel where
  "example_directed =
     \<lparr> func = example_action, store = example_store, nrows = 4, ncols = 4,
       symmetric = False, hbonds = False \<rparr>"

definition directed_2x3 :: AdjacencyMatrixVessel where
  "directed_2x3 =
     \<lparr> func = example_action, store = example_store, nrows = 2, ncols = 3,
       symmetric = False, hbonds = False \<rparr>"

definition directed_3x2 :: AdjacencyMatrixVessel where
  "directed_3x2 =
     \<lparr> func = example_action, store = example_store, nrows = 3, ncols = 2,
       symmetric = False, hbonds = False \<rparr>"

text \<open>
  Large vessels the constructor accepts: an hbonds matrix on 65537 nodes, a directed matrix
  with 65536 rows and columns, and a symmetric matrix on 92683 nodes.
\<close>

definition hbonds_65537 :: AdjacencyMatrixVessel where
  "hbonds_65537 =
     \<lparr> func = example_action \<lparr> getNumberOfNodes := 65537 \<rparr>, store = example_store,
       nrows = 65537, ncols = 65537, symmetric = False, hbonds = True \<rparr>"

definition directed_65536 :: AdjacencyMatrixVessel where
  "directed_65536 =
     \<lparr> func = example_action \<lparr> getNumberOfNodes := 65536 \<rparr>, store = example_store,
       nrows = 65536, ncols = 65536, symmetric = False, hbonds = False \<rparr>"

definition symmetric_92683 :: AdjacencyMatrixVessel where
  "symmetric_92683 =
     \<lparr> func = example_action \<lparr> getNumberOfNodes := 92683 \<rparr>, store = example_store,
       nrows = 92683, ncols = 92683, symmetric = True, hbonds = False \<rparr>"

text \<open>
  A store for the derivative adapter: weight 2 and weighted value 4 at every slot, and a
  base-class method that loads one active derivative, index 0, with derivative 1 of the
  weight (component 0) and derivative 3 of the weighted value (component 1).
\<close>

definition example_loaded :: MultiValue where
  "example_loaded =
     \<lparr> active_indices = [0],
       derivatives = (\<lambda>ival jder. if jder = 0 then (if ival = 0 then 1 else if ival = 1 then 3 else 0)
                                  else 0) \<rparr>"

definition example_store_derivatives :: StoreDataVessel where
  "example_store_derivatives =
     \<lparr> storedValueIsActive = (\<lambda>i. True),
       retrieveValue = (\<lambda>i normed. (2, 4)),
       base_retrieveDerivatives = (\<lambda>myelem normed myvals. example_loaded) \<rparr>"

definition example_with_derivatives :: AdjacencyMatrixVessel where
  "example_with_derivatives =
     \<lparr> func = example_action, store = example_store_derivatives, nrows = 4, ncols = 4,
       symmetric = True, hbonds = False \<rparr>"

definition example_without_derivatives :: AdjacencyMatrixVessel where
  "example_without_derivatives =
     \<lparr> func = example_action \<lparr> weightHasDerivatives := False \<rparr>,
       store = example_store_derivatives, nrows = 4, ncols = 4,
       symmetric = True, hbonds = False \<rparr>"

section \<open>Index arithmetic\<close>

lemma triangular_Suc: "triangular (Suc k) = triangular k + k"
proof (cases k)
  case 0
  then show ?thesis by (simp add: triangular_def)
next
  case (Suc m)
  have "Suc (Suc m) * Suc m = Suc m * m + 2 * Suc m" by simp
  then show ?thesis using Suc by (simp add: triangular_def)
qed

lemma triangular_mono: "a \<le> b \<Longrightarrow> triangular a \<le> triangular b"
  by (induction b) (auto simp: triangular_Suc le_Suc_eq)

lemma triangular_double: "2 * triangular k = k * (k - 1)"
proof -
  have "even (k * (k - 1))" by (cases k) auto
  then show ?thesis by (simp add: triangular_def)
qed

lemma unsigned_wrap_id: "x < 2 ^ 32 \<Longrightarrow> unsigned_wrap x = x"
  by (simp add: unsigned_wrap_def)

lemma unsigned_add_mul: "unsigned_add (unsigned_mul a b) c = unsigned_wrap (a * b + c)"
  by (simp add: unsigned_add_def unsigned_mul_def unsigned_wrap_def mod_add_left_eq)

lemma to_unsigned_triangular:
  "to_unsigned (0.5 * real i * real (unsigned_pred i) + real j) = unsigned_wrap (triangular i + j)"
proof -
  have e: "0.5 * real i * real (unsigned_pred i) + real j = real (triangular i + j)"
  proof (cases "i = 0")
    case True
    then show ?thesis by (simp add: triangular_def)
  next
    case False
    have "real (2 * triangular i) = real i * real (i - 1)"
      by (simp only: triangular_double of_nat_mult)
    then show ?thesis using False by (simp add: unsigned_pred_def)
  qed
  show ?thesis unfolding to_unsigned_def e by (simp only: floor_of_nat nat_int)
qed

lemma to_unsigned_triangular0:
  "to_unsigned (0.5 * real i * real (unsigned_pred i)) = unsigned_wrap (triangular i)"
  using to_unsigned_triangular [of i 0] by simp

lemma getNumberOfStoredValues_eq:
  "getNumberOfStoredValues v =
     (if symmetric v then unsigned_wrap (triangular (getNumberOfNodes (func v)))
      else unsigned_wrap (nrows v * ncols v))"
  unfolding getNumberOfStoredValues_def Let_def to_unsigned_triangular0 unsigned_mul_def
  by (rule refl)

lemma getStoreIndexFromMatrixIndices_eq:
  "getStoreIndexFromMatrixIndices v i j =
     (if \<not> symmetric v then unsigned_wrap (nrows v * i + j)
      else if i > j then unsigned_wrap (triangular i + j) else unsigned_wrap (triangular j + i))"
  unfolding getStoreIndexFromMatrixIndices_def to_unsigned_triangular unsigned_add_mul
  by (rule refl)

lemma triangular_bound: "j < i \<Longrightarrow> i < n \<Longrightarrow> triangular i + j < triangular n"
proof -
  assume a: "j < i" "i < n"
  have "triangular i + j < triangular (Suc i)" using a by (simp add: triangular_Suc)
  also have "\<dots> \<le> triangular n" using a by (intro triangular_mono) simp
  finally show ?thesis .
qed

lemma triangular_inj_aux:
  assumes "j < i" "j' < i'" "i < i'"
  shows "triangular i + j < triangular i' + j'"
proof -
  have "triangular i + j < triangular i'" using assms triangular_bound by blast
  then show ?thesis by simp
qed

lemma triangular_pair_inj:
  assumes "j < i" "j' < i'" "triangular i + j = triangular i' + j'"
  shows "i = i' \<and> j = j'"
proof -
  have "i = i'"
  proof (rule ccontr)
    assume "i \<noteq> i'"
    then consider "i < i'" | "i' < i" by linarith
    then show False
      using triangular_inj_aux [OF assms(1,2)] triangular_inj_aux [OF assms(2,1)] assms(3)
      by cases auto
  qed
  then show ?thesis using assms(3) by simp
qed

lemma triangular_pair_surj: "k < triangular n \<Longrightarrow> \<exists>i j. j < i \<and> i < n \<and> triangular i + j = k"
proof (induction n)
  case 0
  then show ?case by (simp add: triangular_def)
next
  case (Suc n)
  show ?case
  proof (cases "k < triangular n")
    case True
    then obtain i j where "j < i" "i < n" "triangular i + j = k" using Suc.IH by blast
    then show ?thesis by (intro exI [of _ i] exI [of _ j]) simp
  next
    case False
    then have "k - triangular n < n" "triangular n + (k - triangular n) = k"
      using Suc.prems by (simp_all add: triangular_Suc)
    then show ?thesis by (intro exI [of _ n] exI [of _ "k - triangular n"]) simp
  qed
qed

lemma sym_index_bij:
  "bij_betw (\<lambda>(i, j). triangular i + j) {(i, j). j < i \<and> i < n} {..< triangular n}"
  unfolding bij_betw_def
proof (intro conjI)
  show "inj_on (\<lambda>(i, j). triangular i + j) {(i, j). j < i \<and> i < n}"
    by (auto simp: inj_on_def dest: triangular_pair_inj)
  show "(\<lambda>(i, j). triangular i + j) ` {(i, j). j < i \<and> i < n} = {..< triangular n}"
  proof (intro equalityI subsetI)
    fix k assume "k \<in> (\<lambda>(i, j). triangular i + j) ` {(i, j). j < i \<and> i < n}"
    then show "k \<in> {..< triangular n}" by (auto intro: triangular_bound)
  next
    fix k assume "k \<in> {..< triangular n}"
    then have "k < triangular n" by simp
    from triangular_pair_surj [OF this] obtain i j where "j < i" "i < n" "triangular i + j = k" by blast
    then show "k \<in> (\<lambda>(i, j). triangular i + j) ` {(i, j). j < i \<and> i < n}" by force
  qed
qed

lemma sym_index_commute:
  "symmetric v \<Longrightarrow> getStoreIndexFromMatrixIndices v i j = getStoreIndexFromMatrixIndices v j i"
  by (cases i j rule: linorder_cases) (simp_all add: getStoreIndexFromMatrixIndices_eq)

lemma directed_index_swap:
  assumes "\<not> symmetric v" "nrows v * i + j < 2 ^ 32" "nrows v * j + i < 2 ^ 32"
  shows "(getStoreIndexFromMatrixIndices v i j = getStoreIndexFromMatrixIndices v j i)
           = (i = j \<or> nrows v = 1)"
proof -
  have "(int (nrows v) * int i + int j = int (nrows v) * int j + int i) = (i = j \<or> nrows v = 1)"
  proof -
    have "(int (nrows v) * int i + int j = int (nrows v) * int j + int i)
            = ((int (nrows v) - 1) * (int i - int j) = 0)"
      by (simp add: algebra_simps)
    also have "\<dots> = (i = j \<or> nrows v = 1)" by auto
    finally show ?thesis .
  qed
  moreover have "(nrows v * i + j = nrows v * j + i)
                   = (int (nrows v) * int i + int j = int (nrows v) * int j + int i)"
    by (metis of_nat_add of_nat_eq_iff of_nat_mult)
  moreover have "getStoreIndexFromMatrixIndices v i j = nrows v * i + j"
    "getStoreIndexFromMatrixIndices v j i = nrows v * j + i"
    using assms by (simp_all add: getStoreIndexFromMatrixIndices_eq unsigned_wrap_id)
  ultimately show ?thesis by simp
qed

lemma directed_square_bij:
  assumes "\<not> symmetric v" "nrows v = ncols v" "nrows v * ncols v \<le> 2 ^ 32"
  shows "bij_betw (\<lambda>(i, j). getStoreIndexFromMatrixIndices v i j)
           ({..< nrows v} \<times> {..< ncols v}) {..< nrows v * ncols v}"
  unfolding bij_betw_def
proof (intro conjI)
  let ?n = "nrows v"
  have in_range: "?n * i + j < ?n * ?n" if "i < ?n" "j < ?n" for i j
  proof -
    have "?n * i + j < ?n * i + ?n" using that by simp
    also have "\<dots> = ?n * Suc i" by simp
    also have "\<dots> \<le> ?n * ?n" using that by (intro mult_le_mono2) simp
    finally show ?thesis .
  qed
  have idx: "getStoreIndexFromMatrixIndices v i j = ?n * i + j" if "i < ?n" "j < ?n" for i j
  proof -
    have "?n * i + j < 2 ^ 32" using in_range [OF that] assms(2,3) by simp
    then show ?thesis using assms(1) by (simp add: getStoreIndexFromMatrixIndices_eq unsigned_wrap_id)
  qed
  show "inj_on (\<lambda>(i, j). getStoreIndexFromMatrixIndices v i j) ({..< nrows v} \<times> {..< ncols v})"
  proof (rule inj_onI, clarify)
    fix i j i' j'
    assume a: "i < nrows v" "i' < nrows v" "j < ncols v" "j' < ncols v"
      and e: "getStoreIndexFromMatrixIndices v i j = getStoreIndexFromMatrixIndices v i' j'"
    have lt: "j < ?n" "j' < ?n" using a assms(2) by simp_all
    have eq: "?n * i + j = ?n * i' + j'"
      using e idx [OF a(1) lt(1)] idx [OF a(2) lt(2)] by simp
    have "(?n * i + j) div ?n = i" "(?n * i' + j') div ?n = i'"
         "(?n * i + j) mod ?n = j" "(?n * i' + j') mod ?n = j'"
      using lt by simp_all
    then show "i = i' \<and> j = j'" using eq by metis
  qed
  show "(\<lambda>(i, j). getStoreIndexFromMatrixIndices v i j) ` ({..< nrows v} \<times> {..< ncols v})
          = {..< nrows v * ncols v}"
  proof (intro equalityI subsetI)
    fix k assume "k \<in> (\<lambda>(i, j). getStoreIndexFromMatrixIndices v i j) ` ({..< nrows v} \<times> {..< ncols v})"
    then obtain i j where k: "k = getStoreIndexFromMatrixIndices v i j" and lt: "i < ?n" "j < ?n"
      using assms(2) by auto
    have "k < ?n * ?n" using in_range [OF lt] by (simp add: k idx [OF lt])
    then show "k \<in> {..< nrows v * ncols v}" using assms(2) by simp
  next
    fix k assume "k \<in> {..< nrows v * ncols v}"
    then have k: "k < ?n * ?n" using assms(2) by simp
    then have pos: "0 < ?n" by (cases "?n") simp_all
    have d: "k div ?n < ?n" using k pos by (simp add: less_mult_imp_div_less)
    have m: "k mod ?n < ?n" using pos by simp
    have "?n * (k div ?n) + k mod ?n = k" by simp
    then have "getStoreIndexFromMatrixIndices v (k div ?n) (k mod ?n) = k"
      by (simp add: idx [OF d m])
    moreover have "(k div ?n, k mod ?n) \<in> {..< nrows v} \<times> {..< ncols v}"
      using d m assms(2) by simp
    ultimately show "k \<in> (\<lambda>(i, j). getStoreIndexFromMatrixIndices v i j) ` ({..< nrows v} \<times> {..< ncols v})"
      by (metis (mono_tags, lifting) image_eqI case_prod_conv)
  qed
qed

section \<open>The claims on the index arithmetic\<close>

text \<open>
  C1. In directed and hbonds modes the storage index of the cell (i,j), with i below the
  number of rows and j below the number of columns, ought to be a bijection onto the
  indices below rows times columns. The source multiplies the row by \<^verbatim>\<open>nrows\<close>, not by the
  length of a row, \<^verbatim>\<open>ncols\<close>. On a directed matrix with two rows and three columns, which
  the constructor accepts, the cells (0,2) and (1,0) share the index 2; with three rows
  and two columns the cell (2,1) gets the index 7, beyond the six stored values. (On
  a square matrix whose cells fit the range of \<^verbatim>\<open>unsigned\<close>, and so in hbonds mode, the
  mapping is that bijection: \<open>directed_square_bij\<close>.)
\<close>

theorem storeIndex_directed_not_injective:
  "AdjacencyMatrixVessel_new (Some example_action) example_store 2 3 False False = Inr directed_2x3 \<and>
   0 < nrows directed_2x3 \<and> 2 < ncols directed_2x3 \<and>
   1 < nrows directed_2x3 \<and> 0 < ncols directed_2x3 \<and>
   getStoreIndexFromMatrixIndices directed_2x3 0 2 = 2 \<and>
   getStoreIndexFromMatrixIndices directed_2x3 1 0 = 2 \<and>
   AdjacencyMatrixVessel_new (Some example_action) example_store 3 2 False False = Inr directed_3x2 \<and>
   2 < nrows directed_3x2 \<and> 1 < ncols directed_3x2 \<and>
   getStoreIndexFromMatrixIndices directed_3x2 2 1 = 7 \<and>
   getNumberOfStoredValues directed_3x2 = 6"
  by (simp add: AdjacencyMatrixVessel_new_def directed_2x3_def directed_3x2_def
        getStoreIndexFromMatrixIndices_eq getNumberOfStoredValues_eq unsigned_wrap_def)

text \<open>
  C2, as amended. In symmetric mode the storage index, \<open>i(i-1)/2 + j\<close> for \<open>i > j\<close> and
  \<open>j(j-1)/2 + i\<close> otherwise, does not depend on the order of the pair; and when the
  \<open>n(n-1)/2\<close> indices fit the 32-bit \<^verbatim>\<open>unsigned\<close> the function returns (\<open>n(n-1)/2\<close> at most
  \<open>2\<^sup>3\<^sup>2\<close>, that is \<open>n\<close> at most 92682), it maps the pairs of distinct nodes below \<open>n\<close> (each
  taken with its larger node first) one-to-one onto the indices below \<open>n(n-1)/2\<close>: no
  collisions and no gaps.
\<close>

theorem storeIndex_symmetric_bijection:
  assumes "symmetric v" and "n * (n - 1) div 2 \<le> 2 ^ 32"
  shows "(\<forall>i j. getStoreIndexFromMatrixIndices v i j = getStoreIndexFromMatrixIndices v j i) \<and>
     bij_betw (\<lambda>(i, j). getStoreIndexFromMatrixIndices v i j)
        {(i, j). j < i \<and> i < n} {..< n * (n - 1) div 2}"
proof -
  have fit: "triangular n \<le> 2 ^ 32" using assms(2) by (simp add: triangular_def)
  have "getStoreIndexFromMatrixIndices v i j = triangular i + j" if "j < i" "i < n" for i j
  proof -
    have "triangular i + j < 2 ^ 32" using triangular_bound [OF that] fit by simp
    then show ?thesis using assms(1) that by (simp add: getStoreIndexFromMatrixIndices_eq unsigned_wrap_id)
  qed
  then have "bij_betw (\<lambda>(i, j). getStoreIndexFromMatrixIndices v i j)
        {(i, j). j < i \<and> i < n} {..< triangular n}"
    by (intro bij_betw_cong [THEN iffD1, OF _ sym_index_bij]) auto
  then show ?thesis using assms(1) sym_index_commute by (simp add: triangular_def)
qed

text \<open>For four nodes: the six pairs go to the indices 0 to 5.\<close>

theorem storeIndex_symmetric_bijection_witness:
  "symmetric example_symmetric \<and> (4::nat) * (4 - 1) div 2 \<le> 2 ^ 32 \<and>
   bij_betw (\<lambda>(i, j). getStoreIndexFromMatrixIndices example_symmetric i j)
      {(i, j). j < i \<and> i < 4} {..< 6} \<and>
   getStoreIndexFromMatrixIndices example_symmetric 1 0 = 0 \<and>
   getStoreIndexFromMatrixIndices example_symmetric 2 0 = 1 \<and>
   getStoreIndexFromMatrixIndices example_symmetric 2 1 = 2 \<and>
   getStoreIndexFromMatrixIndices example_symmetric 3 0 = 3 \<and>
   getStoreIndexFromMatrixIndices example_symmetric 3 1 = 4 \<and>
   getStoreIndexFromMatrixIndices example_symmetric 3 2 = 5"
proof -
  have s: "symmetric example_symmetric" by (simp add: example_symmetric_def)
  have f: "(4::nat) * (4 - 1) div 2 \<le> 2 ^ 32" by simp
  have "bij_betw (\<lambda>(i, j). getStoreIndexFromMatrixIndices example_symmetric i j)
      {(i, j). j < i \<and> i < 4} {..< 6}"
    using storeIndex_symmetric_bijection [OF s f] by simp
  then show ?thesis using s
    by (simp add: getStoreIndexFromMatrixIndices_eq triangular_def unsigned_wrap_def)
qed

text \<open>
  On 92683 nodes the pairs need 4295022903 indices, more than a 32-bit \<^verbatim>\<open>unsigned\<close> has:
  the pair (92682, 37075) comes back on the index 0 of the pair (1, 0), and the mapping
  is no bijection onto the indices below \<open>n(n-1)/2\<close>.
\<close>

theorem storeIndex_symmetric_wraps:
  "symmetric symmetric_92683 \<and>
   (92683::nat) * (92683 - 1) div 2 = 4295022903 \<and>
   getStoreIndexFromMatrixIndices symmetric_92683 92682 37075 = 0 \<and>
   getStoreIndexFromMatrixIndices symmetric_92683 1 0 = 0 \<and>
   \<not> bij_betw (\<lambda>(i, j). getStoreIndexFromMatrixIndices symmetric_92683 i j)
        {(i, j). j < i \<and> i < 92683} {..< 92683 * (92683 - 1) div 2}"
proof -
  have s: "symmetric symmetric_92683" by (simp add: symmetric_92683_def)
  have a: "getStoreIndexFromMatrixIndices symmetric_92683 92682 37075 = 0"
    using s by (simp add: getStoreIndexFromMatrixIndices_eq triangular_def unsigned_wrap_def)
  have b: "getStoreIndexFromMatrixIndices symmetric_92683 1 0 = 0"
    using s by (simp add: getStoreIndexFromMatrixIndices_eq triangular_def unsigned_wrap_def)
  have "\<not> inj_on (\<lambda>(i, j). getStoreIndexFromMatrixIndices symmetric_92683 i j)
          {(i, j). j < i \<and> i < 92683}"
  proof
    assume "inj_on (\<lambda>(i, j). getStoreIndexFromMatrixIndices symmetric_92683 i j)
          {(i, j). j < i \<and> i < 92683}"
    moreover have "(case (92682::nat, 37075::nat) of (i, j) \<Rightarrow> getStoreIndexFromMatrixIndices symmetric_92683 i j)
        = (case (1::nat, 0::nat) of (i, j) \<Rightarrow> getStoreIndexFromMatrixIndices symmetric_92683 i j)"
      by (simp only: prod.case a b)
    moreover have "(92682, 37075) \<in> {(i, j). j < i \<and> i < (92683::nat)}"
      "(1, 0) \<in> {(i, j). j < i \<and> i < (92683::nat)}"
      by simp_all
    ultimately have "(92682::nat, 37075::nat) = (1, 0)"
      by (rule inj_onD)
    then show False by simp
  qed
  moreover have "(92683::nat) * (92683 - 1) div 2 = 4295022903" by simp
  ultimately show ?thesis using s a b by (simp only: bij_betw_def simp_thms)
qed

text \<open>
  C3, as amended. In symmetric mode the storage index of (i,j) is that of (j,i). In
  directed and hbonds modes the two differ for every pair of distinct nodes i and j of the
  matrix (both below the number of rows), as long as neither index exceeds the range of
  the 32-bit \<^verbatim>\<open>unsigned\<close> it is computed in.
\<close>

theorem storeIndex_swap:
  "(symmetric v \<longrightarrow> getStoreIndexFromMatrixIndices v i j = getStoreIndexFromMatrixIndices v j i) \<and>
   (\<not> symmetric v \<longrightarrow> i \<noteq> j \<longrightarrow> i < nrows v \<longrightarrow> j < nrows v \<longrightarrow>
      nrows v * i + j < 2 ^ 32 \<longrightarrow> nrows v * j + i < 2 ^ 32 \<longrightarrow>
      getStoreIndexFromMatrixIndices v i j \<noteq> getStoreIndexFromMatrixIndices v j i)"
  using sym_index_commute [of v i j] directed_index_swap [of v i j] by auto

theorem storeIndex_swap_witness:
  "symmetric example_symmetric \<and>
   getStoreIndexFromMatrixIndices example_symmetric 1 2 = getStoreIndexFromMatrixIndices example_symmetric 2 1 \<and>
   \<not> symmetric example_directed \<and> (1::nat) \<noteq> 2 \<and> 1 < nrows example_directed \<and> 2 < nrows example_directed \<and>
   nrows example_directed * 1 + 2 < 2 ^ 32 \<and> nrows example_directed * 2 + 1 < 2 ^ 32 \<and>
   getStoreIndexFromMatrixIndices example_directed 1 2 \<noteq> getStoreIndexFromMatrixIndices example_directed 2 1"
  using storeIndex_swap [of example_symmetric 1 2] storeIndex_swap [of example_directed 1 2]
  by (simp add: example_symmetric_def example_directed_def)

text \<open>
  An hbonds matrix on 65537 nodes, which the constructor accepts: the index of the cell
  (65536, 0) is 65537 times 65536 modulo \<open>2\<^sup>3\<^sup>2\<close>, that is 65536, the index of the cell
  (0, 65536).
\<close>

theorem storeIndex_swap_wraps:
  "AdjacencyMatrixVessel_new (Some (example_action \<lparr> getNumberOfNodes := 65537 \<rparr>)) example_store
       65537 65537 False True = Inr hbonds_65537 \<and>
   \<not> symmetric hbonds_65537 \<and> (65536::nat) \<noteq> 0 \<and>
   65536 < nrows hbonds_65537 \<and> 0 < nrows hbonds_65537 \<and>
   getStoreIndexFromMatrixIndices hbonds_65537 65536 0 = 65536 \<and>
   getStoreIndexFromMatrixIndices hbonds_65537 0 65536 = 65536"
  by (simp add: AdjacencyMatrixVessel_new_def hbonds_65537_def getStoreIndexFromMatrixIndices_eq
        unsigned_wrap_def)

text \<open>
  C4, as amended. For every vessel the constructor accepts, the number of stored values is
  rows times columns in directed and hbonds modes, and exactly \<open>n(n-1)/2\<close> in symmetric
  mode, \<open>n\<close> the number of nodes, whenever that number is in the range of the 32-bit
  \<^verbatim>\<open>unsigned\<close> the function returns (below \<open>2\<^sup>3\<^sup>2\<close>); the truncation of the \<^verbatim>\<open>double\<close> loses
  nothing.
\<close>

theorem numberOfStoredValues_valid:
  assumes "AdjacencyMatrixVessel_new action da NROWS NCOLS SYMMETRIC HBONDS = Inr v"
  shows "(\<not> symmetric v \<longrightarrow> nrows v * ncols v < 2 ^ 32 \<longrightarrow>
            getNumberOfStoredValues v = nrows v * ncols v) \<and>
         (symmetric v \<longrightarrow>
            getNumberOfNodes (func v) * (getNumberOfNodes (func v) - 1) div 2 < 2 ^ 32 \<longrightarrow>
            real (getNumberOfStoredValues v) =
              real (getNumberOfNodes (func v)) * (real (getNumberOfNodes (func v)) - 1) / 2)"
proof -
  have "real (2 * triangular n) = real n * (real n - 1)" for n
    unfolding triangular_double by (cases n) (simp_all add: algebra_simps)
  then have r: "real (triangular n) = real n * (real n - 1) / 2" for n
    by (simp add: field_simps)
  have w: "unsigned_wrap (triangular n) = triangular n" if "n * (n - 1) div 2 < 2 ^ 32" for n
    using that by (simp add: unsigned_wrap_id triangular_def)
  show ?thesis
  proof (intro conjI impI)
    assume "\<not> symmetric v" "nrows v * ncols v < 2 ^ 32"
    then show "getNumberOfStoredValues v = nrows v * ncols v"
      by (simp add: getNumberOfStoredValues_eq unsigned_wrap_id)
  next
    assume "symmetric v"
      "getNumberOfNodes (func v) * (getNumberOfNodes (func v) - 1) div 2 < 2 ^ 32"
    then have "getNumberOfStoredValues v = triangular (getNumberOfNodes (func v))"
      by (simp only: getNumberOfStoredValues_eq if_True w)
    then show "real (getNumberOfStoredValues v) =
              real (getNumberOfNodes (func v)) * (real (getNumberOfNodes (func v)) - 1) / 2"
      by (simp only: r)
  qed
qed

theorem numberOfStoredValues_valid_witness:
  "AdjacencyMatrixVessel_new (Some example_action) example_store 4 4 True False = Inr example_symmetric \<and>
   symmetric example_symmetric \<and>
   getNumberOfNodes (func example_symmetric) * (getNumberOfNodes (func example_symmetric) - 1) div 2 < 2 ^ 32 \<and>
   real (getNumberOfStoredValues example_symmetric) = 4 * (4 - 1) / 2 \<and>
   AdjacencyMatrixVessel_new (Some example_action) example_store 2 3 False False = Inr directed_2x3 \<and>
   \<not> symmetric directed_2x3 \<and> nrows directed_2x3 * ncols directed_2x3 < 2 ^ 32 \<and>
   getNumberOfStoredValues directed_2x3 = 2 * 3"
proof -
  have a: "AdjacencyMatrixVessel_new (Some example_action) example_store 4 4 True False = Inr example_symmetric"
    by (simp add: AdjacencyMatrixVessel_new_def example_symmetric_def)
  have b: "AdjacencyMatrixVessel_new (Some example_action) example_store 2 3 False False = Inr directed_2x3"
    by (simp add: AdjacencyMatrixVessel_new_def directed_2x3_def)
  show ?thesis
    using a b numberOfStoredValues_valid [OF a] numberOfStoredValues_valid [OF b]
    by (simp add: example_symmetric_def directed_2x3_def example_action_def)
qed

text \<open>
  A directed matrix with 65536 rows and columns, which the constructor accepts: the
  product wraps and the number of stored values is 0. A symmetric matrix on 92683 nodes:
  \<open>n(n-1)/2\<close> is 4295022903 and the number of stored values is 55607.
\<close>

theorem numberOfStoredValues_wraps:
  "AdjacencyMatrixVessel_new (Some (example_action \<lparr> getNumberOfNodes := 65536 \<rparr>)) example_store
       65536 65536 False False = Inr directed_65536 \<and>
   \<not> symmetric directed_65536 \<and>
   nrows directed_65536 * ncols directed_65536 = 4294967296 \<and>
   getNumberOfStoredValues directed_65536 = 0 \<and>
   AdjacencyMatrixVessel_new (Some (example_action \<lparr> getNumberOfNodes := 92683 \<rparr>)) example_store
       92683 92683 True False = Inr symmetric_92683 \<and>
   symmetric symmetric_92683 \<and>
   getNumberOfNodes (func symmetric_92683) = 92683 \<and>
   (92683::nat) * (92683 - 1) div 2 = 4295022903 \<and>
   getNumberOfStoredValues symmetric_92683 = 55607"
  by (simp add: AdjacencyMatrixVessel_new_def directed_65536_def symmetric_92683_def
        getNumberOfStoredValues_eq triangular_def unsigned_wrap_def)

text \<open>
  C10. In every mode and for every task, \<^verbatim>\<open>getStoreIndex\<close> returns the storage index of
  the matrix indices decoded from the task; the statements after its first \<^verbatim>\<open>return\<close> are
  never reached: whatever follows the first statement, the result is the same.
\<close>

theorem getStoreIndex_first_return:
  "getStoreIndex v myelem =
     Some (getStoreIndexFromMatrixIndices v (fst (getMatrixIndices v myelem))
                                            (snd (getMatrixIndices v myelem))) \<and>
   (\<forall>rest. run_stmts (hd (getStoreIndex_body v myelem) # rest) = getStoreIndex v myelem)"
  by (simp add: getStoreIndex_def getStoreIndex_body_def split: prod.splits)

theorem getStoreIndex_first_return_witness:
  "getStoreIndex example_symmetric 5 = Some 5 \<and> getMatrixIndices example_symmetric 5 = (2, 3) \<and>
   getStoreIndex example_directed 5 = Some 11 \<and>
   getStoreIndexFromMatrixIndices example_directed 2 3 = 11"
  using getStoreIndex_first_return [of example_symmetric 5]
        getStoreIndex_first_return [of example_directed 5]
  by (simp add: getMatrixIndices_def example_symmetric_def example_directed_def example_action_def
        example_decoder_def getStoreIndexFromMatrixIndices_eq triangular_def unsigned_wrap_def)

section \<open>Loops\<close>

lemma for_loop_done: "n \<le> i \<Longrightarrow> for_loop i n body s = s"
  by (simp add: for_loop.simps)

lemma for_loop_snoc: "i \<le> n \<Longrightarrow> for_loop i (Suc n) body s = body n (for_loop i n body s)"
proof (induction i n body s rule: for_loop.induct)
  case (1 i n body s)
  show ?case
  proof (cases "i < n")
    case True
    then have "for_loop (Suc i) (Suc n) body (body i s) = body n (for_loop (Suc i) n body (body i s))"
      using "1.IH" by simp
    then show ?thesis using True by (simp add: for_loop.simps [of i])
  next
    case False
    then have "i = n" using "1.prems" by simp
    then show ?thesis by (simp add: for_loop.simps [of n] for_loop.simps [of "Suc n"])
  qed
qed

lemma for_loop_0_Suc: "for_loop 0 (Suc n) body s = body n (for_loop 0 n body s)"
  by (rule for_loop_snoc) simp

lemma for_loop_err_done: "n \<le> i \<Longrightarrow> for_loop_err i n body s = Inr s"
  by (simp add: for_loop_err.simps)

lemma for_loop_err_snoc:
  "i \<le> n \<Longrightarrow> for_loop_err i (Suc n) body s =
     (case for_loop_err i n body s of Inl e \<Rightarrow> Inl e | Inr s' \<Rightarrow> body n s')"
proof (induction i n body s rule: for_loop_err.induct)
  case (1 i n body s)
  show ?case
  proof (cases "i < n")
    case True
    show ?thesis
    proof (cases "body i s")
      case (Inl e)
      then show ?thesis using True by (simp add: for_loop_err.simps [of i])
    next
      case (Inr s')
      then have "for_loop_err (Suc i) (Suc n) body s' =
          (case for_loop_err (Suc i) n body s' of Inl e \<Rightarrow> Inl e | Inr t \<Rightarrow> body n t)"
        using "1.IH" True by simp
      then show ?thesis using True Inr by (simp add: for_loop_err.simps [of i])
    qed
  next
    case False
    then have "i = n" using "1.prems" by simp
    then show ?thesis
      by (simp add: for_loop_err.simps [of n] for_loop_err.simps [of "Suc n"] split: sum.splits)
  qed
qed

lemma for_loop_err_0_Suc:
  "for_loop_err 0 (Suc n) body s =
     (case for_loop_err 0 n body s of Inl e \<Rightarrow> Inl e | Inr s' \<Rightarrow> body n s')"
  by (rule for_loop_err_snoc) simp


section \<open>The concrete vessels\<close>

lemma upt_0_6: "[0..<6] = [0, 1, 2, 3, 4, 5]"
  by code_simp

lemma example_symmetric_count: "getNumberOfStoredValues example_symmetric = 6"
  by (simp add: getNumberOfStoredValues_eq example_symmetric_def example_action_def triangular_def
        unsigned_wrap_def)

lemma example_symmetric_active:
  "filter (storedValueIsActive (store example_symmetric)) [0..<6] = [0, 5]"
  by (simp add: example_symmetric_def example_store_def upt_0_6)

lemma example_symmetric_indices:
  "getMatrixIndices example_symmetric 0 = (0, 1)" "getMatrixIndices example_symmetric 5 = (2, 3)"
  by (simp_all add: getMatrixIndices_def example_symmetric_def example_action_def example_decoder_def)

lemma example_symmetric_slots:
  "(\<forall>i<getNumberOfStoredValues example_symmetric.
       storedValueIsActive (store example_symmetric) i \<longrightarrow> P i) = (P 0 \<and> P 5)"
proof -
  have "(\<forall>i<6. Q i) = (\<forall>i \<in> set [0..<6]. Q i)" for Q :: "nat \<Rightarrow> bool"
    by auto
  then show ?thesis
    unfolding example_symmetric_count upt_0_6
    by (simp add: example_symmetric_def example_store_def)
qed

lemma example_symmetric_values:
  "retrieveValue (store example_symmetric) 0 False = (2, 1)"
  "retrieveValue (store example_symmetric) 5 False = (5, 4)"
  by (simp_all add: example_symmetric_def example_store_def)



section \<open>The dense matrix\<close>

lemma Matrix_set_same: "Matrix_set m i j x i j = x"
  by (simp add: Matrix_set_def)

lemma Matrix_set_other: "(r, c) \<noteq> (i, j) \<Longrightarrow> Matrix_set m i j x r c = m r c"
  by (cases "r = i") (simp_all add: Matrix_set_def)

lemma Matrix_set_mirror: "Matrix_set (Matrix_set m j k x) k j x j k = x"
proof (cases "j = k")
  case True
  then show ?thesis by (simp only: Matrix_set_same)
next
  case False
  then have ne: "(j, k) \<noteq> (k, j)" by simp
  show ?thesis by (simp only: Matrix_set_other [OF ne] Matrix_set_same)
qed

lemma retrieveMatrix_step_inactive:
  "\<not> storedValueIsActive (store v) n \<Longrightarrow> retrieveMatrix_step v n s = s"
  unfolding retrieveMatrix_step_def by (cases s) simp

lemma retrieveMatrix_step_active:
  assumes "storedValueIsActive (store v) n" "getMatrixIndices v n = (k, j)"
    and "x = snd (retrieveValue (store v) n False) / fst (retrieveValue (store v) n False)"
  shows "snd (retrieveMatrix_step v n s) =
    (if symmetric v then Matrix_set (Matrix_set (snd s) j k x) k j x else Matrix_set (snd s) k j x)"
  using assms unfolding retrieveMatrix_step_def Let_def by (cases s) simp

lemma retrieveMatrix_step_untouched:
  assumes "storedValueIsActive (store v) n \<longrightarrow>
             getMatrixIndices v n \<noteq> (r, c) \<and> (symmetric v \<longrightarrow> getMatrixIndices v n \<noteq> (c, r))"
  shows "snd (retrieveMatrix_step v n s) r c = snd s r c"
proof (cases "storedValueIsActive (store v) n")
  case False
  then show ?thesis by (simp add: retrieveMatrix_step_inactive)
next
  case act: True
  obtain k j where kj: "getMatrixIndices v n = (k, j)" by (cases "getMatrixIndices v n")
  have ne1: "(r, c) \<noteq> (k, j)" using assms kj act by fastforce
  show ?thesis
  proof (cases "symmetric v")
    case True
    then have ne2: "(r, c) \<noteq> (j, k)" using assms kj act by fastforce
    show ?thesis
      by (simp only: retrieveMatrix_step_active [OF act kj refl] True if_True
            Matrix_set_other [OF ne1] Matrix_set_other [OF ne2])
  next
    case False
    show ?thesis
      by (simp only: retrieveMatrix_step_active [OF act kj refl] False if_False
            Matrix_set_other [OF ne1])
  qed
qed

lemma retrieveMatrix_step_written:
  assumes "storedValueIsActive (store v) n" "getMatrixIndices v n = (k, j)"
  shows "snd (retrieveMatrix_step v n s) k j =
           snd (retrieveValue (store v) n False) / fst (retrieveValue (store v) n False)"
    and "symmetric v \<Longrightarrow> snd (retrieveMatrix_step v n s) j k =
           snd (retrieveValue (store v) n False) / fst (retrieveValue (store v) n False)"
proof -
  show "snd (retrieveMatrix_step v n s) k j =
           snd (retrieveValue (store v) n False) / fst (retrieveValue (store v) n False)"
    by (cases "symmetric v")
       (simp_all only: retrieveMatrix_step_active [OF assms refl] if_True if_False Matrix_set_same)
  show "symmetric v \<Longrightarrow> snd (retrieveMatrix_step v n s) j k =
           snd (retrieveValue (store v) n False) / fst (retrieveValue (store v) n False)"
    by (simp only: retrieveMatrix_step_active [OF assms refl] if_True Matrix_set_mirror)
qed

lemma retrieveMatrix_loop_untouched:
  assumes "\<forall>i<n. storedValueIsActive (store v) i \<longrightarrow>
             getMatrixIndices v i \<noteq> (r, c) \<and> (symmetric v \<longrightarrow> getMatrixIndices v i \<noteq> (c, r))"
  shows "snd (for_loop 0 n (retrieveMatrix_step v) s) r c = snd s r c"
  using assms
proof (induction n)
  case 0
  then show ?case by (simp add: for_loop_done)
next
  case (Suc n)
  then show ?case
    by (simp only: for_loop_0_Suc) (simp add: retrieveMatrix_step_untouched)
qed

lemma retrieveMatrix_loop_written:
  assumes sep: "\<And>i i'. i < n \<Longrightarrow> i' < n \<Longrightarrow> i \<noteq> i' \<Longrightarrow>
             storedValueIsActive (store v) i \<Longrightarrow> storedValueIsActive (store v) i' \<Longrightarrow>
             getMatrixIndices v i \<noteq> getMatrixIndices v i' \<and>
             (symmetric v \<longrightarrow> getMatrixIndices v i \<noteq> prod.swap (getMatrixIndices v i'))"
    and "i < n" "storedValueIsActive (store v) i" "getMatrixIndices v i = (k, j)"
  shows "snd (for_loop 0 n (retrieveMatrix_step v) s) k j =
           snd (retrieveValue (store v) i False) / fst (retrieveValue (store v) i False) \<and>
         (symmetric v \<longrightarrow> snd (for_loop 0 n (retrieveMatrix_step v) s) j k =
           snd (retrieveValue (store v) i False) / fst (retrieveValue (store v) i False))"
  using assms
proof (induction n)
  case 0
  then show ?case by simp
next
  case (Suc n)
  let ?s = "for_loop 0 n (retrieveMatrix_step v) s"
  show ?case
  proof (cases "i = n")
    case True
    then show ?thesis
      using Suc.prems(3,4) retrieveMatrix_step_written [of v n k j ?s]
      by (simp only: for_loop_0_Suc) simp
  next
    case False
    then have lt: "i < n" using Suc.prems(2) by simp
    have IH: "snd ?s k j = snd (retrieveValue (store v) i False) / fst (retrieveValue (store v) i False) \<and>
         (symmetric v \<longrightarrow> snd ?s j k =
           snd (retrieveValue (store v) i False) / fst (retrieveValue (store v) i False))"
      using Suc.IH [OF _ lt Suc.prems(3,4)] Suc.prems(1) by simp
    have d: "storedValueIsActive (store v) n \<longrightarrow>
        getMatrixIndices v n \<noteq> (k, j) \<and> (symmetric v \<longrightarrow> getMatrixIndices v n \<noteq> (j, k))"
    proof (intro impI conjI)
      assume an: "storedValueIsActive (store v) n"
      have "getMatrixIndices v n \<noteq> getMatrixIndices v i"
        using Suc.prems(1) [of n i] False lt Suc.prems(3) an by simp
      then show "getMatrixIndices v n \<noteq> (k, j)" unfolding Suc.prems(4) .
      assume "symmetric v"
      then have "getMatrixIndices v n \<noteq> prod.swap (getMatrixIndices v i)"
        using Suc.prems(1) [of n i] False lt Suc.prems(3) an by simp
      then show "getMatrixIndices v n \<noteq> (j, k)" unfolding Suc.prems(4) swap_simp .
    qed
    have d': "storedValueIsActive (store v) n \<longrightarrow>
        getMatrixIndices v n \<noteq> (j, k) \<and> (symmetric v \<longrightarrow> getMatrixIndices v n \<noteq> (k, j))"
      if "symmetric v"
      using d that by blast
    have "snd (retrieveMatrix_step v n ?s) k j = snd ?s k j"
      by (rule retrieveMatrix_step_untouched [OF d])
    moreover have "symmetric v \<Longrightarrow> snd (retrieveMatrix_step v n ?s) j k = snd ?s j k"
      by (rule retrieveMatrix_step_untouched [OF d'])
    ultimately show ?thesis using IH by (simp only: for_loop_0_Suc) simp
  qed
qed

lemma snd_retrieveMatrix:
  "snd (retrieveMatrix v l m) =
     snd (for_loop 0 (getNumberOfStoredValues v) (retrieveMatrix_step v) (deactivateAll l, m))"
  by (simp add: retrieveMatrix_def Let_def split: prod.splits)


text \<open>
  C5, as amended. The dense view assigns, for each active slot, the quotient V/W of the
  stored weighted value and weight to the cell the slot decodes to, and in symmetric mode
  to the mirrored cell as well; every other cell keeps the value it had in the matrix
  that was passed in (the view clears nothing). The slots are taken to decode to
  different cells, and the weights of the active slots to be non-zero.
\<close>

theorem retrieveMatrix_cells:
  assumes sep: "\<forall>i<getNumberOfStoredValues v. \<forall>i'<getNumberOfStoredValues v.
             i \<noteq> i' \<longrightarrow> storedValueIsActive (store v) i \<longrightarrow> storedValueIsActive (store v) i' \<longrightarrow>
             getMatrixIndices v i \<noteq> getMatrixIndices v i' \<and>
             (symmetric v \<longrightarrow> getMatrixIndices v i \<noteq> prod.swap (getMatrixIndices v i'))"
    and nz: "\<forall>i<getNumberOfStoredValues v. storedValueIsActive (store v) i \<longrightarrow>
             fst (retrieveValue (store v) i False) \<noteq> 0"
  shows "(\<forall>i<getNumberOfStoredValues v. storedValueIsActive (store v) i \<longrightarrow>
            (let (k, j) = getMatrixIndices v i;
                 (W, V) = retrieveValue (store v) i False
             in snd (retrieveMatrix v myactive_elements mymatrix) k j = V / W \<and>
                (symmetric v \<longrightarrow> snd (retrieveMatrix v myactive_elements mymatrix) j k = V / W))) \<and>
         (\<forall>r c. (\<forall>i<getNumberOfStoredValues v. storedValueIsActive (store v) i \<longrightarrow>
                    getMatrixIndices v i \<noteq> (r, c) \<and> (symmetric v \<longrightarrow> getMatrixIndices v i \<noteq> (c, r)))
                 \<longrightarrow> snd (retrieveMatrix v myactive_elements mymatrix) r c = mymatrix r c)"
proof (intro conjI allI impI)
  fix i assume a: "i < getNumberOfStoredValues v" "storedValueIsActive (store v) i"
  obtain k j where kj: "getMatrixIndices v i = (k, j)" by (cases "getMatrixIndices v i")
  obtain W V where wv: "retrieveValue (store v) i False = (W, V)"
    by (cases "retrieveValue (store v) i False")
  have "snd (retrieveMatrix v myactive_elements mymatrix) k j = V / W \<and>
        (symmetric v \<longrightarrow> snd (retrieveMatrix v myactive_elements mymatrix) j k = V / W)"
    using retrieveMatrix_loop_written [OF _ a kj, of "(deactivateAll myactive_elements, mymatrix)"] sep
    by (simp add: snd_retrieveMatrix wv)
  then show "let (k, j) = getMatrixIndices v i; (W, V) = retrieveValue (store v) i False
             in snd (retrieveMatrix v myactive_elements mymatrix) k j = V / W \<and>
                (symmetric v \<longrightarrow> snd (retrieveMatrix v myactive_elements mymatrix) j k = V / W)"
    by (simp add: kj wv)
next
  fix r c
  assume "\<forall>i<getNumberOfStoredValues v. storedValueIsActive (store v) i \<longrightarrow>
                    getMatrixIndices v i \<noteq> (r, c) \<and> (symmetric v \<longrightarrow> getMatrixIndices v i \<noteq> (c, r))"
  then show "snd (retrieveMatrix v myactive_elements mymatrix) r c = mymatrix r c"
    using retrieveMatrix_loop_untouched [of "getNumberOfStoredValues v" v r c "(deactivateAll myactive_elements, mymatrix)"]
    by (simp add: snd_retrieveMatrix)
qed


text \<open>
  Four nodes, symmetric mode, active pairs (0,1) with value 0.5 and (2,3) with value 0.8,
  and a matrix that is zero when passed in: the four cells (0,1), (1,0), (2,3), (3,2)
  hold the values and every other cell is zero.
\<close>

theorem retrieveMatrix_cells_witness:
  "symmetric example_symmetric \<and>
   (\<forall>r c. snd (retrieveMatrix example_symmetric [] (\<lambda>r c. 0)) r c =
      (if (r, c) = (0, 1) \<or> (r, c) = (1, 0) then 1 / 2
       else if (r, c) = (2, 3) \<or> (r, c) = (3, 2) then 4 / 5 else 0))"
proof -
  let ?M = "snd (retrieveMatrix example_symmetric [] (\<lambda>r c. 0))"
  have s: "symmetric example_symmetric" by (simp add: example_symmetric_def)
  have sep: "\<forall>i<getNumberOfStoredValues example_symmetric. \<forall>i'<getNumberOfStoredValues example_symmetric.
             i \<noteq> i' \<longrightarrow> storedValueIsActive (store example_symmetric) i \<longrightarrow>
             storedValueIsActive (store example_symmetric) i' \<longrightarrow>
             getMatrixIndices example_symmetric i \<noteq> getMatrixIndices example_symmetric i' \<and>
             (symmetric example_symmetric \<longrightarrow>
                getMatrixIndices example_symmetric i \<noteq> prod.swap (getMatrixIndices example_symmetric i'))"
    by (auto simp: example_symmetric_def example_store_def getMatrixIndices_def example_action_def
          example_decoder_def)
  have nz: "\<forall>i<getNumberOfStoredValues example_symmetric. storedValueIsActive (store example_symmetric) i \<longrightarrow>
             fst (retrieveValue (store example_symmetric) i False) \<noteq> 0"
    by (simp add: example_symmetric_slots example_symmetric_values)
  note t = retrieveMatrix_cells [OF sep nz, of "[]" "\<lambda>r c. 0", unfolded example_symmetric_slots]
  have w: "?M 0 1 = 1 / 2" "?M 1 0 = 1 / 2" "?M 2 3 = 4 / 5" "?M 3 2 = 4 / 5"
    using t s by (simp_all add: example_symmetric_indices example_symmetric_values)
  have z: "?M r c = 0"
    if "(r, c) \<noteq> (0, 1)" "(r, c) \<noteq> (1, 0)" "(r, c) \<noteq> (2, 3)" "(r, c) \<noteq> (3, 2)" for r c
  proof -
    have "(0, 1) \<noteq> (r, c)" "(0, 1) \<noteq> (c, r)" "(2, 3) \<noteq> (r, c)" "(2, 3) \<noteq> (c, r)"
      using that by auto
    then show ?thesis using t by (simp only: example_symmetric_indices simp_thms)
  qed
  have "?M r c = (if (r, c) = (0, 1) \<or> (r, c) = (1, 0) then 1 / 2
       else if (r, c) = (2, 3) \<or> (r, c) = (3, 2) then 4 / 5 else 0)" for r c
  proof -
    consider "(r, c) = (0, 1)" | "(r, c) = (1, 0)" | "(r, c) = (2, 3)" | "(r, c) = (3, 2)"
      | "(r, c) \<noteq> (0, 1)" "(r, c) \<noteq> (1, 0)" "(r, c) \<noteq> (2, 3)" "(r, c) \<noteq> (3, 2)"
      by blast
    then show ?thesis
    proof cases
      case 5
      then show ?thesis using z [OF 5] by simp
    qed (use w in auto)
  qed
  then show ?thesis using s by simp
qed


text \<open>
  The same store and a matrix of ones: the cell (0,0), which no active slot decodes to, is
  still 1 after the view, not zero.
\<close>

theorem retrieveMatrix_keeps_other_cells:
  "getNumberOfStoredValues example_symmetric = 6 \<and>
   filter (storedValueIsActive (store example_symmetric)) [0..<6] = [0, 5] \<and>
   getMatrixIndices example_symmetric 0 = (0, 1) \<and>
   getMatrixIndices example_symmetric 5 = (2, 3) \<and>
   snd (retrieveMatrix example_symmetric [] (\<lambda>r c. 1)) 0 0 = 1 \<and>
   snd (retrieveMatrix example_symmetric [] (\<lambda>r c. 1)) 0 0 \<noteq> 0"
proof -
  have "\<forall>i<getNumberOfStoredValues example_symmetric. storedValueIsActive (store example_symmetric) i \<longrightarrow>
          getMatrixIndices example_symmetric i \<noteq> (0, 0) \<and>
          (symmetric example_symmetric \<longrightarrow> getMatrixIndices example_symmetric i \<noteq> (0, 0))"
    by (simp add: example_symmetric_slots example_symmetric_indices)
  then have "snd (retrieveMatrix example_symmetric [] (\<lambda>r c. 1)) 0 0 = 1"
    using retrieveMatrix_loop_untouched [of "getNumberOfStoredValues example_symmetric" example_symmetric 0 0
        "(deactivateAll [], \<lambda>r c. 1)"]
    by (simp add: snd_retrieveMatrix)
  then show ?thesis
    by (simp add: example_symmetric_count example_symmetric_active example_symmetric_indices)
qed


section \<open>The adjacency lists\<close>












section \<open>The edge list\<close>

lemma retrieveEdgeList_loop:
  assumes "length (filter (storedValueIsActive (store v)) [0..<n]) \<le> length edge_list"
  shows "for_loop_err 0 n (retrieveEdgeList_step v) (0, edge_list) =
           Inr (length (filter (storedValueIsActive (store v)) [0..<n]),
                map (getMatrixIndices v) (filter (storedValueIsActive (store v)) [0..<n]) @
                drop (length (filter (storedValueIsActive (store v)) [0..<n])) edge_list)"
  using assms
proof (induction n)
  case 0
  then show ?case by (simp add: for_loop_err_done)
next
  case (Suc n)
  let ?acts = "filter (storedValueIsActive (store v)) [0..<n]"
  have IH: "for_loop_err 0 n (retrieveEdgeList_step v) (0, edge_list) =
           Inr (length ?acts, map (getMatrixIndices v) ?acts @ drop (length ?acts) edge_list)"
    using Suc by simp
  show ?case
  proof (cases "storedValueIsActive (store v) n")
    case False
    then show ?thesis
      unfolding for_loop_err_0_Suc IH by (simp add: retrieveEdgeList_step_def)
  next
    case True
    then have lt: "length ?acts < length edge_list" using Suc.prems by simp
    have upd: "(map (getMatrixIndices v) ?acts @ drop (length ?acts) edge_list)
                  [length ?acts := getMatrixIndices v n] =
               map (getMatrixIndices v) ?acts @ getMatrixIndices v n # drop (Suc (length ?acts)) edge_list"
      using lt by (simp add: list_update_append Cons_nth_drop_Suc [symmetric])
    show ?thesis using True lt
      unfolding for_loop_err_0_Suc IH by (simp add: retrieveEdgeList_step_def upd)
  qed
qed


text \<open>
  C7. In an undirected mode, and with an edge vector that has room for the active slots,
  the edge-list view returns as the number of edges the number of active storage indices,
  and has written the decoded pairs of the active indices, one per index and in ascending
  order of the index, to the front of the vector.
\<close>

theorem retrieveEdgeList_ascending:
  assumes "undirectedGraph v"
    and "length (filter (storedValueIsActive (store v)) [0..<getNumberOfStoredValues v])
           \<le> length edge_list"
  shows "retrieveEdgeList v nedge edge_list =
           (let active = filter (storedValueIsActive (store v)) [0..<getNumberOfStoredValues v]
            in Inr (length active,
                    map (getMatrixIndices v) active @ drop (length active) edge_list))"
  using assms retrieveEdgeList_loop [OF assms(2)]
  by (simp add: retrieveEdgeList_def plumed_dbg_assert_def Let_def)


text \<open>Active pairs (0,1) and (2,3): two edges, (0,1) then (2,3).\<close>

theorem retrieveEdgeList_ascending_witness:
  "undirectedGraph example_symmetric \<and>
   length (filter (storedValueIsActive (store example_symmetric))
             [0..<getNumberOfStoredValues example_symmetric]) \<le> length [(9, 9), (9, 9), (9::nat, 9::nat)] \<and>
   retrieveEdgeList example_symmetric 7 [(9, 9), (9, 9), (9, 9)] = Inr (2, [(0, 1), (2, 3), (9, 9)])"
proof -
  have u: "undirectedGraph example_symmetric"
    by (simp add: undirectedGraph_def example_symmetric_def)
  have l: "length (filter (storedValueIsActive (store example_symmetric))
             [0..<getNumberOfStoredValues example_symmetric]) \<le> length [(9, 9), (9, 9), (9::nat, 9::nat)]"
    by (simp add: example_symmetric_count example_symmetric_active)
  show ?thesis
    using u l retrieveEdgeList_ascending [OF u l, of 7]
    by (simp add: example_symmetric_count example_symmetric_active example_symmetric_indices)
qed


section \<open>The precondition of the two graph views\<close>

text \<open>
  C8. When the vessel is neither symmetric nor in hbonds mode, the adjacency-list view and
  the edge-list view stop with a precondition error and return no data.
\<close>

theorem views_directed_fail:
  assumes "\<not> undirectedGraph v"
  shows "retrieveAdjacencyLists v nneigh adj_list = Inl PreconditionViolation \<and>
         retrieveEdgeList v nedge edge_list = Inl PreconditionViolation"
  using assms by (simp add: retrieveAdjacencyLists_def retrieveEdgeList_def plumed_dbg_assert_def)



theorem views_directed_fail_witness:
  "\<not> undirectedGraph example_directed \<and>
   retrieveAdjacencyLists example_directed [0, 0, 0, 0] (\<lambda>r c. 0) = Inl PreconditionViolation \<and>
   retrieveEdgeList example_directed 0 [(0, 0), (0, 0)] = Inl PreconditionViolation"
proof -
  have d: "\<not> undirectedGraph example_directed"
    by (simp add: undirectedGraph_def example_directed_def)
  show ?thesis using d views_directed_fail [OF d] by simp
qed


section \<open>The derivatives of the normalised value\<close>

lemma retrieveDerivatives_loop:
  assumes d: "distinct (active_indices myvals)" and n: "n \<le> length (active_indices myvals)"
  shows "for_loop 0 n (retrieveDerivatives_step vals pref) myvals =
           myvals \<lparr> derivatives := (\<lambda>ival jder.
              if ival = 1 \<and> jder \<in> set (take n (active_indices myvals))
              then derivatives myvals 1 jder / fst vals - pref * derivatives myvals 0 jder
              else derivatives myvals ival jder) \<rparr>"
  using n
proof (induction n)
  case 0
  then show ?case by (simp add: for_loop_done)
next
  case (Suc n)
  let ?act = "active_indices myvals"
  let ?mid = "myvals \<lparr> derivatives := (\<lambda>ival jder.
              if ival = 1 \<and> jder \<in> set (take n ?act)
              then derivatives myvals 1 jder / fst vals - pref * derivatives myvals 0 jder
              else derivatives myvals ival jder) \<rparr>"
  have lt: "n < length ?act" using Suc.prems by simp
  have IH: "for_loop 0 n (retrieveDerivatives_step vals pref) myvals = ?mid"
    using Suc by simp
  have fresh: "?act ! n \<notin> set (take n ?act)"
    using d lt by (metis distinct_take id_take_nth_drop not_distinct_conv_prefix append.assoc append_Cons)
  have tk: "set (take (Suc n) ?act) = insert (?act ! n) (set (take n ?act))"
    using lt by (simp add: take_Suc_conv_app_nth)
  have "retrieveDerivatives_step vals pref n ?mid =
          myvals \<lparr> derivatives := (\<lambda>ival jder.
              if ival = 1 \<and> jder \<in> set (take (Suc n) ?act)
              then derivatives myvals 1 jder / fst vals - pref * derivatives myvals 0 jder
              else derivatives myvals ival jder) \<rparr>"
    unfolding retrieveDerivatives_step_def getActiveIndex_def getDerivative_def setDerivative_def tk
    using fresh by (auto simp: Let_def fun_eq_iff)
  then show ?case by (simp only: for_loop_0_Suc IH)
qed


text \<open>
  C9, as amended. With W the stored weight (non-zero), V the stored weighted value, and dW
  and dV the derivatives the base class loaded for components 0 and 1: when the weight has
  derivatives, the adapter replaces dV by \<open>dV/W - (V/W\<^sup>2) dW\<close> at every active derivative
  index and changes nothing else; when the weight has no derivatives it returns what the
  base class loaded. For weight 2, weighted value 4, dW = 1 and dV = 3 the adjusted
  derivative is \<open>3/2 - (4/4) 1 = 1/2\<close>.
\<close>

theorem retrieveDerivatives_quotient_rule:
  assumes "distinct (active_indices (base_retrieveDerivatives (store v) myelem normed myvals))"
    and "fst (retrieveValue (store v) myelem normed) \<noteq> 0"
  shows "let loaded = base_retrieveDerivatives (store v) myelem normed myvals;
             (W, V) = retrieveValue (store v) myelem normed;
             result = retrieveDerivatives v myelem normed myvals
         in (weightHasDerivatives (func v) \<longrightarrow>
               (\<forall>jder \<in> set (active_indices loaded).
                   getDerivative result 1 jder =
                     getDerivative loaded 1 jder / W - (V / (W * W)) * getDerivative loaded 0 jder) \<and>
               (\<forall>jder. jder \<notin> set (active_indices loaded) \<longrightarrow>
                   getDerivative result 1 jder = getDerivative loaded 1 jder) \<and>
               (\<forall>jder. getDerivative result 0 jder = getDerivative loaded 0 jder)) \<and>
            (\<not> weightHasDerivatives (func v) \<longrightarrow> result = loaded)"
proof -
  let ?loaded = "base_retrieveDerivatives (store v) myelem normed myvals"
  obtain W V where wv: "retrieveValue (store v) myelem normed = (W, V)"
    by (cases "retrieveValue (store v) myelem normed")
  have "retrieveDerivatives v myelem normed myvals =
          ?loaded \<lparr> derivatives := (\<lambda>ival jder.
              if ival = 1 \<and> jder \<in> set (active_indices ?loaded)
              then derivatives ?loaded 1 jder / W - (V / (W * W)) * derivatives ?loaded 0 jder
              else derivatives ?loaded ival jder) \<rparr>"
    if "weightHasDerivatives (func v)"
    using that
    by (simp only: retrieveDerivatives_def Let_def wv getNumberActive_def if_False not_not
          snd_conv fst_conv simp_thms
          retrieveDerivatives_loop [OF assms(1) order_refl, of "(W, V)" "V / (W * W)", unfolded fst_conv take_all [OF order_refl]])
  moreover have "retrieveDerivatives v myelem normed myvals = ?loaded"
    if "\<not> weightHasDerivatives (func v)"
    using that by (simp add: retrieveDerivatives_def Let_def)
  ultimately show ?thesis
    by (auto simp: Let_def wv getDerivative_def)
qed



theorem retrieveDerivatives_quotient_rule_witness:
  "distinct (active_indices (base_retrieveDerivatives (store example_with_derivatives) 0 True example_loaded)) \<and>
   retrieveValue (store example_with_derivatives) 0 True = (2, 4) \<and>
   weightHasDerivatives (func example_with_derivatives) \<and>
   getDerivative example_loaded 0 0 = 1 \<and> getDerivative example_loaded 1 0 = 3 \<and>
   getDerivative (retrieveDerivatives example_with_derivatives 0 True example_loaded) 1 0 = 3 / 2 - (4 / 4) * 1 \<and>
   \<not> weightHasDerivatives (func example_without_derivatives) \<and>
   retrieveDerivatives example_without_derivatives 0 True example_loaded = example_loaded"
proof -
  have d1: "distinct (active_indices (base_retrieveDerivatives (store example_with_derivatives) 0 True example_loaded))"
    by (simp add: example_with_derivatives_def example_store_derivatives_def example_loaded_def)
  have n1: "fst (retrieveValue (store example_with_derivatives) 0 True) \<noteq> 0"
    by (simp add: example_with_derivatives_def example_store_derivatives_def)
  have d2: "distinct (active_indices (base_retrieveDerivatives (store example_without_derivatives) 0 True example_loaded))"
    by (simp add: example_without_derivatives_def example_store_derivatives_def example_loaded_def)
  have n2: "fst (retrieveValue (store example_without_derivatives) 0 True) \<noteq> 0"
    by (simp add: example_without_derivatives_def example_store_derivatives_def)
  have l: "base_retrieveDerivatives (store example_with_derivatives) 0 True example_loaded = example_loaded"
      "base_retrieveDerivatives (store example_without_derivatives) 0 True example_loaded = example_loaded"
      "retrieveValue (store example_with_derivatives) 0 True = (2, 4)"
      "weightHasDerivatives (func example_with_derivatives)"
      "\<not> weightHasDerivatives (func example_without_derivatives)"
    by (simp_all add: example_with_derivatives_def example_without_derivatives_def
          example_store_derivatives_def example_action_def)
  have g: "getDerivative example_loaded 0 0 = 1" "getDerivative example_loaded (Suc 0) 0 = 3"
      "active_indices example_loaded = [0]"
    by (simp_all add: getDerivative_def example_loaded_def)
  show ?thesis
    using retrieveDerivatives_quotient_rule [OF d1 n1] retrieveDerivatives_quotient_rule [OF d2 n2] d1
    by (simp add: l g Let_def)
qed


text \<open>
  Weight 2, weighted value 4, dW = 1, dV = 3: the adjusted derivative is 1/2, not the value
  1 of the claim.
\<close>

theorem retrieveDerivatives_example_value:
  "retrieveValue (store example_with_derivatives) 0 True = (2, 4) \<and>
   weightHasDerivatives (func example_with_derivatives) \<and>
   getDerivative (base_retrieveDerivatives (store example_with_derivatives) 0 True example_loaded) 0 0 = 1 \<and>
   getDerivative (base_retrieveDerivatives (store example_with_derivatives) 0 True example_loaded) 1 0 = 3 \<and>
   getDerivative (retrieveDerivatives example_with_derivatives 0 True example_loaded) 1 0 = 1 / 2 \<and>
   getDerivative (retrieveDerivatives example_with_derivatives 0 True example_loaded) 1 0 \<noteq> 1"
proof -
  have l: "base_retrieveDerivatives (store example_with_derivatives) 0 True example_loaded = example_loaded"
      "retrieveValue (store example_with_derivatives) 0 True = (2, 4)"
      "weightHasDerivatives (func example_with_derivatives)"
    by (simp_all add: example_with_derivatives_def example_store_derivatives_def example_action_def)
  have d: "distinct (active_indices example_loaded)" "length (active_indices example_loaded) = 1"
    by (simp_all add: example_loaded_def)
  have g: "derivatives example_loaded 0 0 = 1" "derivatives example_loaded (Suc 0) 0 = 3"
      "active_indices example_loaded = [0]"
    by (simp_all add: example_loaded_def)
  have "retrieveDerivatives example_with_derivatives 0 True example_loaded =
          for_loop 0 1 (retrieveDerivatives_step (2, 4) (4 / (2 * 2))) example_loaded"
    by (simp add: retrieveDerivatives_def Let_def l getNumberActive_def d)
  also have "\<dots> = example_loaded \<lparr> derivatives := (\<lambda>ival jder.
              if ival = 1 \<and> jder \<in> set (take 1 (active_indices example_loaded))
              then derivatives example_loaded 1 jder / fst (2::real, 4::real)
                     - (4 / (2 * 2)) * derivatives example_loaded 0 jder
              else derivatives example_loaded ival jder) \<rparr>"
    using retrieveDerivatives_loop [OF d(1), of 1 "(2, 4)" "4 / (2 * 2)"] d(2) by simp
  finally have "derivatives (retrieveDerivatives example_with_derivatives 0 True example_loaded) 1 0 = 1 / 2"
    by (simp add: g)
  then show ?thesis
    by (simp add: l getDerivative_def g)
qed

end
